theory Spec2Isabelle
  imports Main
begin

section \<open>The Cohere embeddings client (langchain/src/embeddings/cohere.ts)\<close>

text \<open>
  The class \<^verbatim>\<open>CohereEmbeddings\<close> is a thin client: its constructor resolves an API key,
  \<^verbatim>\<open>embedDocuments\<close> splits the texts into batches and calls the remote endpoint once
  per batch, \<^verbatim>\<open>embedQuery\<close> calls it once for one text, and \<^verbatim>\<open>maybeInitClient\<close> loads
  and initialises the \<^verbatim>\<open>cohere-ai\<close> module on first use.

  The embedding makes every effect explicit. A thrown JavaScript error is the left
  summand of a result; the instance's fields are a record that each method returns
  updated; what the instance does to the outside (initialising the module, handing a
  request to the retrying caller) is appended to a list of events. Each method is
  first a function that runs one call from its start to its end; the calls of one
  instance that are in flight together are then the tasks of a machine whose steps are
  the pieces of the methods between two \<^verbatim>\<open>await\<close>s.
\<close>

subsection \<open>JavaScript values\<close>

text \<open>The errors this file throws are \<^verbatim>\<open>new Error(message)\<close>.\<close>

datatype error = Error string

text \<open>
  A value that may be \<^verbatim>\<open>undefined\<close> is an option, \<open>None\<close> being \<^verbatim>\<open>undefined\<close>.
  A string is falsy exactly when it is \<^verbatim>\<open>undefined\<close> or empty.
\<close>

fun truthy :: "string option \<Rightarrow> bool" where
  "truthy None = False"
| "truthy (Some s) = (s \<noteq> [])"

text \<open>\<^verbatim>\<open>a || b\<close> on possibly undefined strings.\<close>

definition js_or :: "string option \<Rightarrow> string option \<Rightarrow> string option" where
  "js_or a b = (if truthy a then a else b)"

text \<open>\<^verbatim>\<open>a ?? d\<close>: the default only for \<^verbatim>\<open>undefined\<close>.\<close>

fun nullish :: "'a option \<Rightarrow> 'a \<Rightarrow> 'a" where
  "nullish None d = d"
| "nullish (Some a) d = a"

text \<open>\<^verbatim>\<open>xs[j]\<close>: reading an array past its end gives \<^verbatim>\<open>undefined\<close>.\<close>

definition js_index :: "'a list \<Rightarrow> nat \<Rightarrow> 'a option" where
  "js_index xs j = (if j < length xs then Some (xs ! j) else None)"

subsection \<open>The instance and its surroundings\<close>

text \<open>The argument of \<^verbatim>\<open>client.embed\<close>: \<^verbatim>\<open>{ model, texts }\<close>.\<close>

record request =
  model :: string
  texts :: "string list"

text \<open>
  The loaded \<^verbatim>\<open>cohere-ai\<close> module, with the key that \<^verbatim>\<open>init\<close> gave it. The field
  \<^verbatim>\<open>client\<close> of an instance is \<^verbatim>\<open>undefined\<close> until \<^verbatim>\<open>maybeInitClient\<close> sets it.
\<close>

datatype cohere = Cohere string

text \<open>
  The fields of an instance. \<^verbatim>\<open>batchSize\<close> is a count of documents, a natural number
  here; the inherited fields (\<^verbatim>\<open>verbose\<close>, \<^verbatim>\<open>caller\<close>) are set by the base class
  constructor, which is not part of this file.
\<close>

record CohereEmbeddings =
  modelName :: string
  batchSize :: nat
  apiKey :: string
  client :: "cohere option"

text \<open>The optional argument \<^verbatim>\<open>fields\<close> of the constructor; each property may be absent.\<close>

record fields =
  f_modelName :: "string option"
  f_batchSize :: "nat option"
  f_apiKey :: "string option"

text \<open>
  What an instance does to the outside, in the order it does it:
  \<^verbatim>\<open>this.client.init(apiKey)\<close> and \<^verbatim>\<open>this.caller.call(this.client.embed, request)\<close>.
\<close>

datatype event = InitClient string | EmbedCall request

text \<open>
  The surroundings of a call. \<open>installed\<close> says whether \<^verbatim>\<open>import("cohere-ai")\<close>
  resolves. \<open>embed n r\<close> is the outcome of the \<open>n\<close>-th request handed to the retrying
  caller (counted from 0 over the life of the events list) when that request is \<open>r\<close>:
  the response's \<^verbatim>\<open>body.embeddings\<close>, or the error the caller throws once it gives
  up. The caller belongs to the base class and the endpoint to the provider, so both
  are a parameter; indexing by \<open>n\<close> lets the endpoint answer differently each time.
\<close>

record 'e world =
  installed :: bool
  embed :: "nat \<Rightarrow> request \<Rightarrow> error + 'e list"

text \<open>An instance together with the events so far.\<close>

type_synonym state = "CohereEmbeddings \<times> event list"

text \<open>The requests among the events.\<close>

fun calls :: "event list \<Rightarrow> request list" where
  "calls [] = []"
| "calls (InitClient k # es) = calls es"
| "calls (EmbedCall r # es) = r # calls es"

text \<open>The keys of the initialisations among the events.\<close>

fun inits :: "event list \<Rightarrow> string list" where
  "inits [] = []"
| "inits (InitClient k # es) = k # inits es"
| "inits (EmbedCall r # es) = inits es"

subsection \<open>The constructor\<close>

text \<open>
  \<^verbatim>\<open>
  const apiKey = fields?.apiKey ||
    (typeof process !== "undefined" ? process.env.COHERE_API_KEY : undefined);
  if (!apiKey) { throw new Error("Cohere API key not found"); }
  this.modelName = fields?.modelName ?? this.modelName;
  this.batchSize = fields?.batchSize ?? this.batchSize;
  this.apiKey = apiKey;
  \<close>
  Before this, \<^verbatim>\<open>super(fields ?? {})\<close> runs the constructor of the base class, which is
  not part of this file and sets only the inherited fields.
  The global \<^verbatim>\<open>process\<close> is \<open>None\<close> where it is not defined (a browser), and else its
  \<^verbatim>\<open>env\<close>, a map from variable names to values. The field initialisers give
  \<^verbatim>\<open>modelName = "small"\<close> and \<^verbatim>\<open>batchSize = 48\<close>; \<^verbatim>\<open>client\<close> has none.
\<close>

definition optional_chain :: "'r option \<Rightarrow> ('r \<Rightarrow> 'a option) \<Rightarrow> 'a option" where
  "optional_chain obj sel = (case obj of None \<Rightarrow> None | Some r \<Rightarrow> sel r)"

definition env_COHERE_API_KEY :: "(string \<rightharpoonup> string) option \<Rightarrow> string option" where
  "env_COHERE_API_KEY process =
     (case process of None \<Rightarrow> None | Some env \<Rightarrow> env ''COHERE_API_KEY'')"

definition constructor :: "(string \<rightharpoonup> string) option \<Rightarrow> fields option \<Rightarrow> error + CohereEmbeddings" where
  "constructor process flds =
     (let key = js_or (optional_chain flds f_apiKey) (env_COHERE_API_KEY process) in
      if truthy key then
        Inr \<lparr> modelName = nullish (optional_chain flds f_modelName) ''small'',
              batchSize = nullish (optional_chain flds f_batchSize) 48,
              apiKey = the key,
              client = None \<rparr>
      else Inl (Error ''Cohere API key not found''))"

subsection \<open>Loading the client\<close>

text \<open>
  The static method \<^verbatim>\<open>imports\<close> (the name is a keyword here, hence the suffix) turns
  any failure of the dynamic import into its own error.
\<close>

definition imports_cohere :: "'e world \<Rightarrow> error + unit" where
  "imports_cohere w =
     (if installed w then Inr ()
      else Inl (Error ''Please install cohere-ai as a dependency with, e.g. `yarn add cohere-ai`''))"

text \<open>
  \<^verbatim>\<open>
  if (!this.client) {
    const { cohere } = await CohereEmbeddings.imports();
    this.client = cohere;
    this.client.init(this.apiKey);
  }
  \<close>
\<close>

definition maybeInitClient :: "'e world \<Rightarrow> state \<Rightarrow> (error + unit) \<times> state" where
  "maybeInitClient w s =
     (case client (fst s) of
        Some c \<Rightarrow> (Inr (), s)
      | None \<Rightarrow>
          (case imports_cohere w of
             Inl e \<Rightarrow> (Inl e, s)
           | Inr u \<Rightarrow>
               (Inr (), ((fst s)\<lparr>client := Some (Cohere (apiKey (fst s)))\<rparr>,
                         snd s @ [InitClient (apiKey (fst s))]))))"

text \<open>
  \<^verbatim>\<open>
  await this.maybeInitClient();
  return this.caller.call(this.client.embed.bind(this.client), request);
  \<close>
\<close>

definition embeddingWithRetry :: "'e world \<Rightarrow> request \<Rightarrow> state \<Rightarrow> (error + 'e list) \<times> state" where
  "embeddingWithRetry w req s =
     (case maybeInitClient w s of
        (Inl e, s') \<Rightarrow> (Inl e, s')
      | (Inr u, s') \<Rightarrow>
          (embed w (length (calls (snd s'))) req, (fst s', snd s' @ [EmbedCall req])))"

subsection \<open>Batching\<close>

text \<open>
  Modelled from the spec: \<^verbatim>\<open>chunkArray\<close> is imported from \<^verbatim>\<open>../util/index.js\<close>, which
  is not among the sources. The spec describes it as a pure, deterministic, order
  preserving \<^verbatim>\<open>chunk(items, size)\<close> that partitions the items into consecutive batches
  of at most \<^verbatim>\<open>size\<close> items. The spec says nothing for size 0, where no such partition
  of a non-empty list exists; the model returns no batch there, and every statement
  below that depends on the batches of a non-empty list takes a positive size.
\<close>

function chunkArray :: "'a list \<Rightarrow> nat \<Rightarrow> 'a list list" where
  "chunkArray arr chunkSize =
     (if arr = [] \<or> chunkSize = 0 then []
      else take chunkSize arr # chunkArray (drop chunkSize arr) chunkSize)"
  by pat_completeness auto
termination
  by (relation "measure (\<lambda>(arr, chunkSize). length arr)") auto

declare chunkArray.simps [simp del]

subsection \<open>embedDocuments and embedQuery\<close>

text \<open>
  The inner loop:
  \<^verbatim>\<open>for (let j = 0; j < input.length; j += 1) { embeddings.push(body.embeddings[j]); }\<close>
  with \<open>n\<close> for \<^verbatim>\<open>input.length\<close> and \<open>body\<close> for \<^verbatim>\<open>body.embeddings\<close>.
\<close>

function push_loop :: "'e list \<Rightarrow> nat \<Rightarrow> nat \<Rightarrow> 'e option list \<Rightarrow> 'e option list" where
  "push_loop body n j embeddings =
     (if j < n then push_loop body n (j + 1) (embeddings @ [js_index body j])
      else embeddings)"
  by pat_completeness auto
termination
  by (relation "measure (\<lambda>(body, n, j, embeddings). n - j)") auto

declare push_loop.simps [simp del]

text \<open>
  The outer loop:
  \<^verbatim>\<open>
  for (let i = 0; i < subPrompts.length; i += 1) {
    const input = subPrompts[i];
    const { body } = await this.embeddingWithRetry({ model: this.modelName, texts });
    for (...) { ... }
  }
  return embeddings;
  \<close>
  The request carries \<^verbatim>\<open>texts\<close>, the argument of \<^verbatim>\<open>embedDocuments\<close>, and not \<^verbatim>\<open>input\<close>.
  A rejected \<^verbatim>\<open>await\<close> leaves the method at once.
\<close>

function batch_loop ::
  "'e world \<Rightarrow> string list \<Rightarrow> string list list \<Rightarrow> nat \<Rightarrow> 'e option list \<Rightarrow> state
     \<Rightarrow> (error + 'e option list) \<times> state" where
  "batch_loop w txts subPrompts i embeddings s =
     (if i < length subPrompts then
        (case embeddingWithRetry w \<lparr> model = modelName (fst s), texts = txts \<rparr> s of
           (Inl e, s') \<Rightarrow> (Inl e, s')
         | (Inr body, s') \<Rightarrow>
             batch_loop w txts subPrompts (i + 1)
               (push_loop body (length (subPrompts ! i)) 0 embeddings) s')
      else (Inr embeddings, s))"
  by pat_completeness auto
termination
  by (relation "measure (\<lambda>(w, txts, subPrompts, i, embeddings, s). length subPrompts - i)") auto

declare batch_loop.simps [simp del]

definition embedDocuments ::
  "'e world \<Rightarrow> string list \<Rightarrow> state \<Rightarrow> (error + 'e option list) \<times> state" where
  "embedDocuments w txts s =
     (case maybeInitClient w s of
        (Inl e, s') \<Rightarrow> (Inl e, s')
      | (Inr u, s') \<Rightarrow>
          batch_loop w txts (chunkArray txts (batchSize (fst s'))) 0 [] s')"

text \<open>
  \<^verbatim>\<open>
  await this.maybeInitClient();
  const { body } = await this.embeddingWithRetry({ model: this.modelName, texts: [text] });
  return body.embeddings[0];
  \<close>
\<close>

definition embedQuery :: "'e world \<Rightarrow> string \<Rightarrow> state \<Rightarrow> (error + 'e option) \<times> state" where
  "embedQuery w text s =
     (case maybeInitClient w s of
        (Inl e, s') \<Rightarrow> (Inl e, s')
      | (Inr u, s') \<Rightarrow>
          (case embeddingWithRetry w \<lparr> model = modelName (fst s'), texts = [text] \<rparr> s' of
             (Inl e, s'') \<Rightarrow> (Inl e, s'')
           | (Inr body, s'') \<Rightarrow> (Inr (js_index body 0), s'')))"

subsection \<open>Calls in flight together on one instance\<close>

text \<open>
  The functions above run one call from its start to its end. An \<^verbatim>\<open>async\<close> method,
  however, runs only up to its next \<^verbatim>\<open>await\<close>; there it is suspended, and other code
  runs, also other calls of the same instance, before it is resumed. What happens
  between two suspensions is not interrupted. The pieces of the two public methods are
  therefore the steps of a machine: a call is a task with the locals that outlive a
  suspension and the point where it is suspended, and a schedule says which task is
  resumed next.

  The points of suspension in \<^verbatim>\<open>cohere.ts\<close>:
  \<^item> \<open>Importing p\<close>: in \<^verbatim>\<open>maybeInitClient\<close>, at \<^verbatim>\<open>await CohereEmbeddings.imports()\<close>
    (line 111), after the test \<^verbatim>\<open>!this.client\<close> of line 110 found no client and
    before line 113 assigns one;
  \<^item> \<open>Returned p\<close>: at \<^verbatim>\<open>await this.maybeInitClient()\<close> (lines 58, 84 and 101), when
    \<^verbatim>\<open>maybeInitClient\<close> has returned;
  \<^item> \<open>Calling n\<close>: at the \<^verbatim>\<open>await\<close> of \<^verbatim>\<open>embeddingWithRetry\<close>'s result (lines 66
    and 86), the request being the \<open>n\<close>-th handed to the caller.
  The place \<open>p\<close> tells the two calls of \<^verbatim>\<open>maybeInitClient\<close> of one method apart: the
  one at its entry, and the one in \<^verbatim>\<open>embeddingWithRetry\<close>.
\<close>

datatype operation = EmbedDocuments "string list" | EmbedQuery string

datatype place = Entry | Retry

text \<open>What a finished call returned: a list of embeddings, or one embedding.\<close>

datatype 'e returned = Embeddings "'e option list" | Embedding "'e option"

datatype 'e point =
    NotStarted
  | Importing place
  | Returned place
  | Calling nat
  | Finished "error + 'e returned"

text \<open>
  A task: the call, the locals \<^verbatim>\<open>i\<close> and \<^verbatim>\<open>embeddings\<close> of \<^verbatim>\<open>embedDocuments\<close> (unused by
  \<^verbatim>\<open>embedQuery\<close>), and the point of suspension.
\<close>

datatype 'e task = Task operation nat "'e option list" "'e point"

text \<open>
  \<^verbatim>\<open>maybeInitClient\<close> up to its first suspension: the test of line 110. Without a client
  it starts the import and waits; with one it returns at once.
\<close>

definition guard :: "CohereEmbeddings \<Rightarrow> place \<Rightarrow> 'e point" where
  "guard obj p = (case client obj of None \<Rightarrow> Importing p | Some c \<Rightarrow> Returned p)"

text \<open>The request of a call: lines 66 to 69 and 86 to 89.\<close>

fun request_of :: "CohereEmbeddings \<Rightarrow> operation \<Rightarrow> request" where
  "request_of obj (EmbedDocuments txts) = \<lparr> model = modelName obj, texts = txts \<rparr>"
| "request_of obj (EmbedQuery text) = \<lparr> model = modelName obj, texts = [text] \<rparr>"

text \<open>
  The head of the loop of \<^verbatim>\<open>embedDocuments\<close> with its locals at \<open>i\<close> and \<open>embs\<close>: the test
  of line 64 and, when it holds, the call of \<^verbatim>\<open>embeddingWithRetry\<close>, which enters
  \<^verbatim>\<open>maybeInitClient\<close>; else the \<^verbatim>\<open>return\<close> of line 75.
\<close>

definition loop_head :: "CohereEmbeddings \<Rightarrow> string list \<Rightarrow> nat \<Rightarrow> 'e option list \<Rightarrow> 'e task" where
  "loop_head obj txts i embs =
     (if i < length (chunkArray txts (batchSize obj))
      then Task (EmbedDocuments txts) i embs (guard obj Retry)
      else Task (EmbedDocuments txts) i embs (Finished (Inr (Embeddings embs))))"

text \<open>
  Resuming a task runs it to its next suspension.
  \<^item> A call that has not started enters \<^verbatim>\<open>maybeInitClient\<close>.
  \<^item> When the import is over, \<^verbatim>\<open>maybeInitClient\<close> assigns the client and calls
    \<^verbatim>\<open>init\<close> (lines 113 and 114) without looking at \<^verbatim>\<open>this.client\<close> again, or
    the error of \<^verbatim>\<open>imports\<close> ends the call.
  \<^item> After the \<^verbatim>\<open>maybeInitClient\<close> of its entry, \<^verbatim>\<open>embedDocuments\<close> makes the batches
    and reaches the head of its loop, and \<^verbatim>\<open>embedQuery\<close> calls
    \<^verbatim>\<open>embeddingWithRetry\<close>.
  \<^item> After the \<^verbatim>\<open>maybeInitClient\<close> of \<^verbatim>\<open>embeddingWithRetry\<close> the request goes to the
    caller (line 103).
  \<^item> When the caller is done, its error ends the call; else \<^verbatim>\<open>embedDocuments\<close> pushes
    the entries of the answer and goes to the head of the loop with \<^verbatim>\<open>i + 1\<close>, and
    \<^verbatim>\<open>embedQuery\<close> returns entry 0.
  \<^item> A finished call stays as it is.
\<close>

fun resume :: "'e world \<Rightarrow> 'e task \<Rightarrow> state \<Rightarrow> 'e task \<times> state" where
  "resume w (Task c i embs NotStarted) (obj, log) =
     (Task c i embs (guard obj Entry), (obj, log))"
| "resume w (Task c i embs (Importing p)) (obj, log) =
     (case imports_cohere w of
        Inl e \<Rightarrow> (Task c i embs (Finished (Inl e)), (obj, log))
      | Inr u \<Rightarrow>
          (Task c i embs (Returned p),
           (obj\<lparr>client := Some (Cohere (apiKey obj))\<rparr>, log @ [InitClient (apiKey obj)])))"
| "resume w (Task (EmbedDocuments txts) i embs (Returned Entry)) (obj, log) =
     (loop_head obj txts 0 [], (obj, log))"
| "resume w (Task (EmbedQuery text) i embs (Returned Entry)) (obj, log) =
     (Task (EmbedQuery text) i embs (guard obj Retry), (obj, log))"
| "resume w (Task c i embs (Returned Retry)) (obj, log) =
     (Task c i embs (Calling (length (calls log))), (obj, log @ [EmbedCall (request_of obj c)]))"
| "resume w (Task (EmbedDocuments txts) i embs (Calling n)) (obj, log) =
     (case embed w n (request_of obj (EmbedDocuments txts)) of
        Inl e \<Rightarrow> (Task (EmbedDocuments txts) i embs (Finished (Inl e)), (obj, log))
      | Inr body \<Rightarrow>
          (loop_head obj txts (i + 1)
             (push_loop body (length (chunkArray txts (batchSize obj) ! i)) 0 embs),
           (obj, log)))"
| "resume w (Task (EmbedQuery text) i embs (Calling n)) (obj, log) =
     (case embed w n (request_of obj (EmbedQuery text)) of
        Inl e \<Rightarrow> (Task (EmbedQuery text) i embs (Finished (Inl e)), (obj, log))
      | Inr body \<Rightarrow>
          (Task (EmbedQuery text) i embs (Finished (Inr (Embedding (js_index body 0)))), (obj, log)))"
| "resume w (Task c i embs (Finished r)) (obj, log) =
     (Task c i embs (Finished r), (obj, log))"

text \<open>
  The calls of one instance and its state. \<open>resume_at w k\<close> resumes the \<open>k\<close>-th call
  (nothing happens when there is none); a schedule is the list of the calls resumed,
  in order. A call that starts after another is done is a call whose first place in
  the schedule comes after the last of the other.
\<close>

type_synonym 'e system = "'e task list \<times> state"

definition resume_at :: "'e world \<Rightarrow> nat \<Rightarrow> 'e system \<Rightarrow> 'e system" where
  "resume_at w k sys =
     (if k < length (fst sys)
      then (case resume w (fst sys ! k) (snd sys) of (t, s) \<Rightarrow> ((fst sys)[k := t], s))
      else sys)"

fun run_schedule :: "'e world \<Rightarrow> nat list \<Rightarrow> 'e system \<Rightarrow> 'e system" where
  "run_schedule w [] sys = sys"
| "run_schedule w (k # ks) sys = run_schedule w ks (resume_at w k sys)"

text \<open>Whether a task waits at line 111, between the test of the client and its assignment.\<close>

fun importing :: "'e task \<Rightarrow> bool" where
  "importing (Task c i embs (Importing p)) = True"
| "importing (Task c i embs NotStarted) = False"
| "importing (Task c i embs (Returned p)) = False"
| "importing (Task c i embs (Calling n)) = False"
| "importing (Task c i embs (Finished r)) = False"

section \<open>Properties\<close>

subsection \<open>The loops and the helpers\<close>

lemma push_loop_eq: "push_loop body n j embs = embs @ map (js_index body) [j..<n]"
proof (induction body n j embs rule: push_loop.induct)
  case (1 body n j embeddings)
  show ?case
  proof (cases "j < n")
    case True
    with 1 show ?thesis
      by (subst push_loop.simps) (simp add: upt_conv_Cons)
  next
    case False
    then show ?thesis by (subst push_loop.simps) simp
  qed
qed

lemma calls_append: "calls (xs @ ys) = calls xs @ calls ys"
  by (induction xs rule: calls.induct) simp_all

lemma inits_append: "inits (xs @ ys) = inits xs @ inits ys"
  by (induction xs rule: inits.induct) simp_all

lemma maybeInitClient_ready:
  "client (fst s) = Some c \<Longrightarrow> maybeInitClient w s = (Inr (), s)"
  by (simp add: maybeInitClient_def)

lemma maybeInitClient_fresh:
  "client (fst s) = None \<Longrightarrow> installed w \<Longrightarrow>
   maybeInitClient w s =
     (Inr (), ((fst s)\<lparr>client := Some (Cohere (apiKey (fst s)))\<rparr>, snd s @ [InitClient (apiKey (fst s))]))"
  by (simp add: maybeInitClient_def imports_cohere_def)

lemma maybeInitClient_missing:
  "client (fst s) = None \<Longrightarrow> \<not> installed w \<Longrightarrow> \<exists>e. maybeInitClient w s = (Inl e, s)"
  by (simp add: maybeInitClient_def imports_cohere_def)

lemma embeddingWithRetry_ready:
  "client (fst s) = Some c \<Longrightarrow>
   embeddingWithRetry w req s =
     (embed w (length (calls (snd s))) req, (fst s, snd s @ [EmbedCall req]))"
  by (simp add: embeddingWithRetry_def maybeInitClient_ready)

lemma chunkArray_Nil: "chunkArray [] n = []"
  by (subst chunkArray.simps) simp

lemma concat_chunkArray: "0 < n \<Longrightarrow> concat (chunkArray xs n) = xs"
proof (induction xs n rule: chunkArray.induct)
  case (1 arr chunkSize)
  then show ?case by (subst chunkArray.simps) auto
qed

lemma chunkArray_bounds: "b \<in> set (chunkArray xs n) \<Longrightarrow> b \<noteq> [] \<and> length b \<le> n"
proof (induction xs n arbitrary: b rule: chunkArray.induct)
  case (1 arr chunkSize)
  show ?case
  proof (cases "arr = [] \<or> chunkSize = 0")
    case True
    with "1.prems" show ?thesis by (subst (asm) chunkArray.simps) simp
  next
    case False
    with "1.prems" have "b = take chunkSize arr \<or> b \<in> set (chunkArray (drop chunkSize arr) chunkSize)"
      by (subst (asm) chunkArray.simps) simp
    then show ?thesis
    proof
      assume "b = take chunkSize arr"
      with False show ?thesis by simp
    next
      assume "b \<in> set (chunkArray (drop chunkSize arr) chunkSize)"
      with False "1.IH" show ?thesis by blast
    qed
  qed
qed

lemma sum_length_chunkArray: "0 < n \<Longrightarrow> sum_list (map length (chunkArray xs n)) = length xs"
proof -
  assume "0 < n"
  then have "length (concat (chunkArray xs n)) = length xs" by (simp add: concat_chunkArray)
  then show ?thesis by (simp add: length_concat)
qed

lemma batch_loop_done:
  "length subPrompts \<le> i \<Longrightarrow> batch_loop w txts subPrompts i embs s = (Inr embs, s)"
  by (subst batch_loop.simps) simp

lemma batch_loop_step_ok:
  assumes "client (fst s) = Some c" and "i < length subPrompts"
    and "embed w (length (calls (snd s))) \<lparr> model = modelName (fst s), texts = txts \<rparr> = Inr body"
  shows "batch_loop w txts subPrompts i embs s =
           batch_loop w txts subPrompts (Suc i)
             (embs @ map (js_index body) [0..<length (subPrompts ! i)])
             (fst s, snd s @ [EmbedCall \<lparr> model = modelName (fst s), texts = txts \<rparr>])"
  using assms
  by (subst batch_loop.simps) (simp add: embeddingWithRetry_ready push_loop_eq)

lemma batch_loop_step_fail:
  assumes "client (fst s) = Some c" and "i < length subPrompts"
    and "embed w (length (calls (snd s))) \<lparr> model = modelName (fst s), texts = txts \<rparr> = Inl e"
  shows "batch_loop w txts subPrompts i embs s =
           (Inl e, (fst s, snd s @ [EmbedCall \<lparr> model = modelName (fst s), texts = txts \<rparr>]))"
  using assms
  by (subst batch_loop.simps) (simp add: embeddingWithRetry_ready)

lemma batch_loop_all_ok:
  assumes "client (fst s) = Some c"
    and "\<And>k. k < length subPrompts - i \<Longrightarrow>
           \<exists>body. embed w (length (calls (snd s)) + k) \<lparr> model = modelName (fst s), texts = txts \<rparr> = Inr body"
  shows "batch_loop w txts subPrompts i embs s =
           (Inr (embs @ concat (map (\<lambda>k. map (js_index (projr (embed w (length (calls (snd s)) + k)
                     \<lparr> model = modelName (fst s), texts = txts \<rparr>))) [0..<length (subPrompts ! (i + k))])
                   [0..<length subPrompts - i])),
            (fst s, snd s @ replicate (length subPrompts - i)
                       (EmbedCall \<lparr> model = modelName (fst s), texts = txts \<rparr>)))"
  using assms
proof (induction "length subPrompts - i" arbitrary: i embs s)
  case 0
  then show ?case by (simp add: batch_loop_done)
next
  case (Suc n)
  let ?req = "\<lparr> model = modelName (fst s), texts = txts \<rparr>"
  let ?n0 = "length (calls (snd s))"
  let ?s' = "(fst s, snd s @ [EmbedCall ?req])"
  from Suc.hyps(2) have lt: "i < length subPrompts" by simp
  from Suc.prems(2)[of 0] lt obtain body where body: "embed w ?n0 ?req = Inr body"
    by auto
  have step: "batch_loop w txts subPrompts i embs s =
      batch_loop w txts subPrompts (Suc i) (embs @ map (js_index body) [0..<length (subPrompts ! i)]) ?s'"
    using Suc.prems(1) lt body by (rule batch_loop_step_ok)
  have n: "n = length subPrompts - Suc i" using Suc.hyps(2) by simp
  have c': "client (fst ?s') = Some c" using Suc.prems(1) by simp
  have ok': "\<And>k. k < length subPrompts - Suc i \<Longrightarrow>
      \<exists>body. embed w (length (calls (snd ?s')) + k) \<lparr> model = modelName (fst ?s'), texts = txts \<rparr> = Inr body"
  proof -
    fix k assume "k < length subPrompts - Suc i"
    then have "Suc k < length subPrompts - i" by simp
    from Suc.prems(2)[OF this] show "\<exists>body. embed w (length (calls (snd ?s')) + k) \<lparr> model = modelName (fst ?s'), texts = txts \<rparr> = Inr body"
      by (simp add: calls_append)
  qed
  note IH = Suc.hyps(1)[OF n c' ok']
  have len: "length subPrompts - i = Suc (length subPrompts - Suc i)" using lt by simp
  have up: "[0..<length subPrompts - i] = 0 # map Suc [0..<length subPrompts - Suc i]"
    unfolding len by (simp only: map_Suc_upt upt_conv_Cons[of 0] zero_less_Suc)
  show ?case
    unfolding step up
    using body IH[of "embs @ map (js_index body) [0..<length (subPrompts ! i)]"]
    by (simp add: calls_append len comp_def)
qed

lemma batch_loop_first_fail:
  assumes "client (fst s) = Some c"
    and "k < length subPrompts - i"
    and "embed w (length (calls (snd s)) + k) \<lparr> model = modelName (fst s), texts = txts \<rparr> = Inl e"
    and "\<And>j. j < k \<Longrightarrow>
           \<exists>body. embed w (length (calls (snd s)) + j) \<lparr> model = modelName (fst s), texts = txts \<rparr> = Inr body"
  shows "batch_loop w txts subPrompts i embs s =
           (Inl e, (fst s, snd s @ replicate (Suc k)
                       (EmbedCall \<lparr> model = modelName (fst s), texts = txts \<rparr>)))"
  using assms
proof (induction k arbitrary: i embs s)
  case 0
  then show ?case
    using batch_loop_step_fail[of s c i subPrompts w txts e embs] by simp
next
  case (Suc k)
  let ?req = "\<lparr> model = modelName (fst s), texts = txts \<rparr>"
  let ?s' = "(fst s, snd s @ [EmbedCall ?req])"
  from Suc.prems(2) have lt: "i < length subPrompts" by simp
  from Suc.prems(4)[of 0] obtain body where body: "embed w (length (calls (snd s))) ?req = Inr body"
    by auto
  have step: "batch_loop w txts subPrompts i embs s =
      batch_loop w txts subPrompts (Suc i) (embs @ map (js_index body) [0..<length (subPrompts ! i)]) ?s'"
    using Suc.prems(1) lt body by (rule batch_loop_step_ok)
  have c': "client (fst ?s') = Some c" using Suc.prems(1) by simp
  have k': "k < length subPrompts - Suc i" using Suc.prems(2) by simp
  have e': "embed w (length (calls (snd ?s')) + k) \<lparr> model = modelName (fst ?s'), texts = txts \<rparr> = Inl e"
    using Suc.prems(3) by (simp add: calls_append)
  have ok': "\<And>j. j < k \<Longrightarrow>
      \<exists>body. embed w (length (calls (snd ?s')) + j) \<lparr> model = modelName (fst ?s'), texts = txts \<rparr> = Inr body"
  proof -
    fix j assume "j < k"
    then have "Suc j < Suc k" by simp
    from Suc.prems(4)[OF this] show "\<exists>body. embed w (length (calls (snd ?s')) + j) \<lparr> model = modelName (fst ?s'), texts = txts \<rparr> = Inr body"
      by (simp add: calls_append)
  qed
  show ?case
    unfolding step
    using Suc.IH[OF c' k' e' ok', of "embs @ map (js_index body) [0..<length (subPrompts ! i)]"]
    by (simp add: replicate_app_Cons_same)
qed

lemma batch_loop_events:
  assumes "client (fst s) = Some c"
  shows "\<exists>m \<le> length subPrompts - i.
           snd (batch_loop w txts subPrompts i embs s) =
             (fst s, snd s @ replicate m (EmbedCall \<lparr> model = modelName (fst s), texts = txts \<rparr>))"
  using assms
proof (induction "length subPrompts - i" arbitrary: i embs s)
  case 0
  then show ?case by (simp add: batch_loop_done)
next
  case (Suc n)
  let ?req = "\<lparr> model = modelName (fst s), texts = txts \<rparr>"
  let ?s' = "(fst s, snd s @ [EmbedCall ?req])"
  from Suc.hyps(2) have lt: "i < length subPrompts" by simp
  show ?case
  proof (cases "embed w (length (calls (snd s))) ?req")
    case (Inl e)
    have "batch_loop w txts subPrompts i embs s = (Inl e, ?s')"
      using Suc.prems lt Inl by (rule batch_loop_step_fail)
    then have "snd (batch_loop w txts subPrompts i embs s) = (fst s, snd s @ replicate 1 (EmbedCall ?req))"
      by simp
    moreover have "1 \<le> length subPrompts - i" using lt by simp
    ultimately show ?thesis by blast
  next
    case (Inr body)
    have step: "batch_loop w txts subPrompts i embs s =
        batch_loop w txts subPrompts (Suc i) (embs @ map (js_index body) [0..<length (subPrompts ! i)]) ?s'"
      using Suc.prems lt Inr by (rule batch_loop_step_ok)
    have n: "n = length subPrompts - Suc i" using Suc.hyps(2) by simp
    have c': "client (fst ?s') = Some c" using Suc.prems by simp
    from Suc.hyps(1)[OF n c', of "embs @ map (js_index body) [0..<length (subPrompts ! i)]"]
    obtain m where m: "m \<le> length subPrompts - Suc i"
      and ev: "snd (batch_loop w txts subPrompts (Suc i) (embs @ map (js_index body) [0..<length (subPrompts ! i)]) ?s')
                = (fst ?s', snd ?s' @ replicate m (EmbedCall \<lparr> model = modelName (fst ?s'), texts = txts \<rparr>))"
      by blast
    have "snd (batch_loop w txts subPrompts i embs s) = (fst s, snd s @ replicate (Suc m) (EmbedCall ?req))"
      unfolding step ev by simp
    moreover have "Suc m \<le> length subPrompts - i" using m lt by simp
    ultimately show ?thesis by blast
  qed
qed

lemma calls_replicate: "calls (replicate m (EmbedCall r)) = replicate m r"
  by (induction m) simp_all

lemma inits_replicate: "inits (replicate m (EmbedCall r)) = []"
  by (induction m) simp_all

lemma maybeInitClient_ok:
  assumes "installed w \<or> client (fst s) \<noteq> None"
  shows "\<exists>s1. maybeInitClient w s = (Inr (), s1) \<and> client (fst s1) \<noteq> None \<and>
              modelName (fst s1) = modelName (fst s) \<and> batchSize (fst s1) = batchSize (fst s) \<and>
              apiKey (fst s1) = apiKey (fst s) \<and> calls (snd s1) = calls (snd s)"
  using assms
  by (cases "client (fst s)") (auto simp: maybeInitClient_def imports_cohere_def calls_append)

subsection \<open>The whole of embedDocuments when every call succeeds\<close>

text \<open>
  When the client can be loaded and each request of the run is answered, the result
  is, batch after batch, the first \<open>length batch\<close> entries of the answer to that
  batch's request, and one \<open>EmbedCall\<close> is added per batch.
\<close>

lemma embedDocuments_all_ok:
  assumes "installed w \<or> client (fst s) \<noteq> None"
    and "\<And>k. k < length (chunkArray txts (batchSize (fst s))) \<Longrightarrow>
           \<exists>body. embed w (length (calls (snd s)) + k) \<lparr> model = modelName (fst s), texts = txts \<rparr> = Inr body"
  shows "\<exists>s1. maybeInitClient w s = (Inr (), s1) \<and>
           embedDocuments w txts s =
             (Inr (concat (map (\<lambda>k. map (js_index (projr (embed w (length (calls (snd s)) + k)
                                \<lparr> model = modelName (fst s), texts = txts \<rparr>)))
                              [0..<length (chunkArray txts (batchSize (fst s)) ! k)])
                        [0..<length (chunkArray txts (batchSize (fst s)))])),
              (fst s1, snd s1 @ replicate (length (chunkArray txts (batchSize (fst s))))
                                  (EmbedCall \<lparr> model = modelName (fst s), texts = txts \<rparr>)))"
proof -
  from maybeInitClient_ok[OF assms(1)] obtain s1 where s1: "maybeInitClient w s = (Inr (), s1)"
    and c: "client (fst s1) \<noteq> None" and m: "modelName (fst s1) = modelName (fst s)"
    and b: "batchSize (fst s1) = batchSize (fst s)" and n: "calls (snd s1) = calls (snd s)"
    by blast
  from c obtain c' where c': "client (fst s1) = Some c'" by auto
  have ok: "\<And>k. k < length (chunkArray txts (batchSize (fst s))) - 0 \<Longrightarrow>
      \<exists>body. embed w (length (calls (snd s1)) + k) \<lparr> model = modelName (fst s1), texts = txts \<rparr> = Inr body"
    using assms(2) by (simp add: m n)
  from batch_loop_all_ok[where embs="[]" and i=0 and subPrompts="chunkArray txts (batchSize (fst s))", OF c' ok] s1
  show ?thesis
    by (simp add: embedDocuments_def m b n)
qed

lemma length_concat_batches:
  "length (concat (map (\<lambda>k. map (g k) [0..<length (bs ! k)]) [0..<length bs])) = sum_list (map length bs)"
proof -
  have "map (\<lambda>k. length (bs ! k)) [0..<length bs] = map length (map (\<lambda>k. bs ! k) [0..<length bs])"
    by (simp only: map_map comp_def)
  also have "\<dots> = map length bs"
    by (simp only: map_nth)
  finally show ?thesis by (simp add: length_concat comp_def)
qed

lemma chunkArray_length_le:
  assumes "0 < n" and "b \<in> set (chunkArray xs n)"
  shows "length b \<le> length xs"
proof -
  from assms(2) have "length b \<in> set (map length (chunkArray xs n))" by simp
  then have "length b \<le> sum_list (map length (chunkArray xs n))" by (simp add: member_le_sum_list)
  with assms(1) show ?thesis by (simp add: sum_length_chunkArray)
qed

lemma js_index_prefix:
  "n \<le> length xs \<Longrightarrow> map (js_index (map f xs)) [0..<n] = map (\<lambda>t. Some (f t)) (take n xs)"
  by (rule nth_equalityI) (simp_all add: js_index_def)

text \<open>
  With a provider that answers every request with the embeddings \<open>f\<close> of its texts,
  in order, each batch contributes the embeddings of the first \<open>length batch\<close> texts
  of the whole input, since every request carries the whole input.
\<close>

lemma embedDocuments_aligned_provider:
  assumes "installed w \<or> client (fst s) \<noteq> None"
    and "0 < batchSize (fst s)"
    and "\<And>n r. embed w n r = Inr (map f (texts r))"
  shows "fst (embedDocuments w txts s) =
           Inr (concat (map (\<lambda>b. map (\<lambda>t. Some (f t)) (take (length b) txts))
                            (chunkArray txts (batchSize (fst s)))))"
proof -
  let ?bs = "chunkArray txts (batchSize (fst s))"
  let ?req = "\<lparr> model = modelName (fst s), texts = txts \<rparr>"
  have ok: "\<And>k. k < length ?bs \<Longrightarrow> \<exists>body. embed w (length (calls (snd s)) + k) ?req = Inr body"
    by (simp add: assms(3))
  from embedDocuments_all_ok[OF assms(1) ok]
  have res: "fst (embedDocuments w txts s) =
      Inr (concat (map (\<lambda>k. map (js_index (projr (embed w (length (calls (snd s)) + k) ?req)))
                              [0..<length (?bs ! k)]) [0..<length ?bs]))"
    by auto
  have "map (\<lambda>k. map (js_index (projr (embed w (length (calls (snd s)) + k) ?req)))
                              [0..<length (?bs ! k)]) [0..<length ?bs]
      = map (\<lambda>k. map (\<lambda>t. Some (f t)) (take (length (?bs ! k)) txts)) [0..<length ?bs]"
  proof (rule map_cong[OF refl])
    fix k assume "k \<in> set [0..<length ?bs]"
    then have "?bs ! k \<in> set ?bs" by simp
    from chunkArray_length_le[OF assms(2) this] have "length (?bs ! k) \<le> length txts" .
    then show "map (js_index (projr (embed w (length (calls (snd s)) + k) ?req))) [0..<length (?bs ! k)]
        = map (\<lambda>t. Some (f t)) (take (length (?bs ! k)) txts)"
      by (simp add: assms(3) js_index_prefix)
  qed
  also have "\<dots> = map (\<lambda>b. map (\<lambda>t. Some (f t)) (take (length b) txts)) (map (\<lambda>k. ?bs ! k) [0..<length ?bs])"
    by (simp only: map_map comp_def)
  also have "\<dots> = map (\<lambda>b. map (\<lambda>t. Some (f t)) (take (length b) txts)) ?bs"
    by (simp only: map_nth)
  finally show ?thesis using res by simp
qed

lemma embedDocuments_empty_result:
  assumes "installed w \<or> client (fst s) \<noteq> None"
  shows "fst (embedDocuments w [] s) = Inr []"
proof -
  from maybeInitClient_ok[OF assms] obtain s1 where "maybeInitClient w s = (Inr (), s1)" by blast
  then show ?thesis by (simp add: embedDocuments_def chunkArray_Nil batch_loop_done)
qed

text \<open>When the whole input fits in one batch the two readings agree.\<close>

lemma embedDocuments_aligned_single_batch:
  assumes "installed w \<or> client (fst s) \<noteq> None"
    and "length txts \<le> batchSize (fst s)"
    and "\<And>n r. embed w n r = Inr (map f (texts r))"
  shows "fst (embedDocuments w txts s) = Inr (map (\<lambda>t. Some (f t)) txts)"
proof (cases "txts = []")
  case True
  with embedDocuments_empty_result[OF assms(1)] show ?thesis by simp
next
  case False
  with assms(2) have pos: "0 < batchSize (fst s)" by (cases txts) auto
  have "chunkArray txts (batchSize (fst s)) = [txts]"
    using False assms(2) pos by (subst chunkArray.simps) (simp add: chunkArray_Nil)
  with embedDocuments_aligned_provider[OF assms(1) pos assms(3), of txts] show ?thesis by simp
qed

subsection \<open>The state after a call\<close>

lemma embedDocuments_events:
  assumes "maybeInitClient w s = (Inr (), s1)" and "client (fst s1) = Some c"
  shows "\<exists>m \<le> length (chunkArray txts (batchSize (fst s1))).
           snd (embedDocuments w txts s) =
             (fst s1, snd s1 @ replicate m (EmbedCall \<lparr> model = modelName (fst s1), texts = txts \<rparr>))"
  using batch_loop_events[OF assms(2), of "chunkArray txts (batchSize (fst s1))" 0 w txts "[]"] assms(1)
  by (simp add: embedDocuments_def)

lemma embedQuery_ready:
  assumes "maybeInitClient w s = (Inr (), s1)" and "client (fst s1) = Some c"
  shows "embedQuery w t s =
           (map_sum id (\<lambda>body. js_index body 0)
              (embed w (length (calls (snd s1))) \<lparr> model = modelName (fst s1), texts = [t] \<rparr>),
            (fst s1, snd s1 @ [EmbedCall \<lparr> model = modelName (fst s1), texts = [t] \<rparr>]))"
  using assms
  by (cases "embed w (length (calls (snd s1))) \<lparr> model = modelName (fst s1), texts = [t] \<rparr>")
     (simp_all add: embedQuery_def embeddingWithRetry_ready)

lemma chunkArray_single: "0 < n \<Longrightarrow> chunkArray [t] n = [[t]]"
  by (subst chunkArray.simps) (simp add: chunkArray_Nil)

lemma embedDocuments_single:
  assumes "maybeInitClient w s = (Inr (), s1)" and "client (fst s1) = Some c"
    and "0 < batchSize (fst s1)"
  shows "embedDocuments w [t] s =
           (map_sum id (\<lambda>body. [js_index body 0])
              (embed w (length (calls (snd s1))) \<lparr> model = modelName (fst s1), texts = [t] \<rparr>),
            (fst s1, snd s1 @ [EmbedCall \<lparr> model = modelName (fst s1), texts = [t] \<rparr>]))"
proof (cases "embed w (length (calls (snd s1))) \<lparr> model = modelName (fst s1), texts = [t] \<rparr>")
  case (Inl e)
  from batch_loop_step_fail[OF assms(2) _ Inl, of 0 "[[t]]" "[]"] assms(1,3) Inl
  show ?thesis by (simp add: embedDocuments_def chunkArray_single)
next
  case (Inr body)
  from batch_loop_step_ok[OF assms(2) _ Inr, of 0 "[[t]]" "[]"] assms(1,3) Inr
  show ?thesis by (simp add: embedDocuments_def chunkArray_single batch_loop_done)
qed



text \<open>An empty explicit key with the variable set: the key of the environment is used.\<close>

lemma constructor_env_key: "constructor (Some [''COHERE_API_KEY'' \<mapsto> ''k'']) (Some \<lparr> f_modelName = None, f_batchSize = None, f_apiKey = Some [] \<rparr>) = Inr \<lparr> modelName = ''small'', batchSize = 48, apiKey = ''k'', client = None \<rparr>"
  by (simp add: constructor_def js_or_def optional_chain_def env_COHERE_API_KEY_def)

subsection \<open>One call alone on the machine\<close>

text \<open>
  A task resumed again and again with no other beside it ends as the function of its
  method does, with the same result and the same state: the machine and the functions
  are one reading of the code, and they part only where calls are in flight together.
\<close>

lemma guard_ready: "client obj = Some c \<Longrightarrow> guard obj p = Returned p"
  by (simp add: guard_def)

lemma guard_fresh: "client obj = None \<Longrightarrow> guard obj p = Importing p"
  by (simp add: guard_def)

lemma importing_loop_head:
  "client obj = Some c \<Longrightarrow> \<not> importing (loop_head obj txts i embs)"
  by (simp add: loop_head_def guard_ready)

lemma resume_at_single:
  "resume_at w 0 ([t], s) = ([fst (resume w t s)], snd (resume w t s))"
  by (simp add: resume_at_def split: prod.splits)

lemma finished_stays:
  "run_schedule w (replicate n 0) ([Task c i embs (Finished r)], s) = ([Task c i embs (Finished r)], s)"
proof (induction n)
  case 0
  then show ?case by simp
next
  case (Suc n)
  obtain obj log where s: "s = (obj, log)" by (cases s)
  from Suc show ?case unfolding s by (simp add: resume_at_single)
qed

lemma loop_alone:
  assumes "client obj = Some c'" and "2 * (length (chunkArray txts (batchSize obj)) - i) \<le> n"
  shows "\<exists>i' embs'.
           run_schedule w (replicate n 0) ([loop_head obj txts i embs], (obj, log)) =
             ([Task (EmbedDocuments txts) i' embs'
                 (Finished (map_sum id Embeddings
                    (fst (batch_loop w txts (chunkArray txts (batchSize obj)) i embs (obj, log)))))],
              snd (batch_loop w txts (chunkArray txts (batchSize obj)) i embs (obj, log)))"
  using assms(2)
proof (induction "length (chunkArray txts (batchSize obj)) - i" arbitrary: i embs log n)
  case 0
  then have over: "length (chunkArray txts (batchSize obj)) \<le> i" by simp
  then have "loop_head obj txts i embs = Task (EmbedDocuments txts) i embs (Finished (Inr (Embeddings embs)))"
    by (simp add: loop_head_def)
  with over show ?case by (simp add: finished_stays batch_loop_done)
next
  case (Suc m)
  let ?sub = "chunkArray txts (batchSize obj)"
  let ?req = "\<lparr> model = modelName obj, texts = txts \<rparr>"
  from Suc.hyps(2) have lt: "i < length ?sub" by simp
  from Suc.prems Suc.hyps(2) obtain n' where n: "n = Suc (Suc n')" and n': "2 * (length ?sub - Suc i) \<le> n'"
    by (cases n; cases "n - 1") auto
  have head: "loop_head obj txts i embs = Task (EmbedDocuments txts) i embs (Returned Retry)"
    using lt assms(1) by (simp add: loop_head_def guard_ready)
  have retry: "embeddingWithRetry w ?req (obj, log)
      = (embed w (length (calls log)) ?req, (obj, log @ [EmbedCall ?req]))"
    using embeddingWithRetry_ready[of "(obj, log)" c' w ?req] assms(1) by simp
  show ?case
  proof (cases "embed w (length (calls log)) ?req")
    case (Inl e)
    have "batch_loop w txts ?sub i embs (obj, log) = (Inl e, (obj, log @ [EmbedCall ?req]))"
      using lt Inl retry by (subst batch_loop.simps) simp
    then show ?thesis
      unfolding n head using Inl by (simp add: resume_at_single finished_stays)
  next
    case (Inr body)
    have m: "m = length ?sub - Suc i" using Suc.hyps(2) by simp
    have step: "batch_loop w txts ?sub i embs (obj, log)
        = batch_loop w txts ?sub (Suc i) (push_loop body (length (?sub ! i)) 0 embs) (obj, log @ [EmbedCall ?req])"
      using lt Inr retry by (subst batch_loop.simps) simp
    from Suc.hyps(1)[OF m n', of "push_loop body (length (?sub ! i)) 0 embs" "log @ [EmbedCall ?req]"]
    obtain i' embs' where
      "run_schedule w (replicate n' 0)
         ([loop_head obj txts (Suc i) (push_loop body (length (?sub ! i)) 0 embs)], (obj, log @ [EmbedCall ?req])) =
       ([Task (EmbedDocuments txts) i' embs'
           (Finished (map_sum id Embeddings
              (fst (batch_loop w txts ?sub (Suc i) (push_loop body (length (?sub ! i)) 0 embs) (obj, log @ [EmbedCall ?req])))))],
        snd (batch_loop w txts ?sub (Suc i) (push_loop body (length (?sub ! i)) 0 embs) (obj, log @ [EmbedCall ?req])))"
      by blast
    then show ?thesis
      unfolding n head step using Inr by (simp add: resume_at_single)
  qed
qed

lemma embedDocuments_alone:
  assumes "3 + 2 * length (chunkArray txts (batchSize (fst s))) \<le> n"
  shows "\<exists>i' embs'.
           run_schedule w (replicate n 0) ([Task (EmbedDocuments txts) i embs NotStarted], s) =
             ([Task (EmbedDocuments txts) i' embs'
                 (Finished (map_sum id Embeddings (fst (embedDocuments w txts s))))],
              snd (embedDocuments w txts s))"
proof -
  obtain obj log where s: "s = (obj, log)" by (cases s)
  let ?sub = "chunkArray txts (batchSize obj)"
  from assms obtain n1 where n: "n = Suc (Suc (Suc n1))" and n1: "2 * length ?sub \<le> n1"
    unfolding s by (cases n; cases "n - 1"; cases "n - 2") auto
  show ?thesis
  proof (cases "client obj")
    case (Some c')
    have b: "2 * (length ?sub - 0) \<le> Suc n1" using n1 by simp
    from loop_alone[OF Some b, of w "[]" log] obtain i' embs' where
      "run_schedule w (replicate (Suc n1) 0) ([loop_head obj txts 0 []], (obj, log)) =
         ([Task (EmbedDocuments txts) i' embs'
            (Finished (map_sum id Embeddings (fst (batch_loop w txts ?sub 0 [] (obj, log)))))],
          snd (batch_loop w txts ?sub 0 [] (obj, log)))"
      by blast
    then show ?thesis
      unfolding s n using Some
      by (simp add: resume_at_single guard_ready embedDocuments_def maybeInitClient_def)
  next
    case None
    show ?thesis
    proof (cases "installed w")
      case False
      with None show ?thesis unfolding s n
        by (simp add: resume_at_single guard_fresh embedDocuments_def maybeInitClient_def
            imports_cohere_def finished_stays)
    next
      case True
      let ?obj = "obj\<lparr>client := Some (Cohere (apiKey obj))\<rparr>"
      let ?log = "log @ [InitClient (apiKey obj)]"
      have c: "client ?obj = Some (Cohere (apiKey obj))" by simp
      have b: "2 * (length (chunkArray txts (batchSize ?obj)) - 0) \<le> n1" using n1 by simp
      from loop_alone[OF c b, of w "[]" ?log] obtain i' embs' where
        "run_schedule w (replicate n1 0) ([loop_head ?obj txts 0 []], (?obj, ?log)) =
           ([Task (EmbedDocuments txts) i' embs'
              (Finished (map_sum id Embeddings
                 (fst (batch_loop w txts (chunkArray txts (batchSize ?obj)) 0 [] (?obj, ?log)))))],
            snd (batch_loop w txts (chunkArray txts (batchSize ?obj)) 0 [] (?obj, ?log)))"
        by blast
      then show ?thesis
        unfolding s n using None True
        by (simp add: resume_at_single guard_fresh embedDocuments_def maybeInitClient_def
            imports_cohere_def)
    qed
  qed
qed

lemma embedQuery_alone:
  assumes "5 \<le> n"
  shows "run_schedule w (replicate n 0) ([Task (EmbedQuery q) i embs NotStarted], s) =
           ([Task (EmbedQuery q) i embs (Finished (map_sum id Embedding (fst (embedQuery w q s))))],
            snd (embedQuery w q s))"
proof -
  obtain obj log where s: "s = (obj, log)" by (cases s)
  from assms obtain n1 where n: "n = Suc (Suc (Suc (Suc (Suc n1))))"
    by (cases n; cases "n - 1"; cases "n - 2"; cases "n - 3"; cases "n - 4") auto
  show ?thesis
  proof (cases "client obj")
    case (Some c')
    then show ?thesis unfolding s n
      by (cases "embed w (length (calls log)) \<lparr> model = modelName obj, texts = [q] \<rparr>")
         (simp_all add: resume_at_single guard_def embedQuery_def maybeInitClient_def
            embeddingWithRetry_def finished_stays)
  next
    case None
    show ?thesis
    proof (cases "installed w")
      case False
      with None show ?thesis unfolding s n
        by (simp add: resume_at_single guard_def embedQuery_def maybeInitClient_def
            imports_cohere_def finished_stays)
    next
      case True
      with None show ?thesis unfolding s n
        by (cases "embed w (length (calls log)) \<lparr> model = modelName obj, texts = [q] \<rparr>")
           (simp_all add: resume_at_single guard_def embedQuery_def maybeInitClient_def
              embeddingWithRetry_def imports_cohere_def finished_stays calls_append)
    qed
  qed
qed

subsection \<open>The client under any schedule\<close>

text \<open>A client that is set is never taken away, whatever the calls and their schedule.\<close>

lemma resume_keeps_client:
  assumes "client (fst s) \<noteq> None"
  shows "client (fst (snd (resume w t s))) \<noteq> None"
proof -
  obtain obj log where s: "s = (obj, log)" by (cases s)
  show ?thesis
    using assms unfolding s
    by (cases "(w, t, (obj, log))" rule: resume.cases)
       (auto simp: imports_cohere_def split: sum.splits)
qed

lemma client_never_unset:
  "client (fst (snd sys)) \<noteq> None \<Longrightarrow> client (fst (snd (run_schedule w ks sys))) \<noteq> None"
proof (induction ks arbitrary: sys)
  case Nil
  then show ?case by simp
next
  case (Cons k ks)
  have "client (fst (snd (resume_at w k sys))) \<noteq> None"
  proof (cases "k < length (fst sys)")
    case True
    with resume_keeps_client[OF Cons.prems, of w "fst sys ! k"] show ?thesis
      by (auto simp add: resume_at_def split: prod.splits)
  next
    case False
    with Cons.prems show ?thesis by (simp add: resume_at_def)
  qed
  from Cons.IH[OF this] show ?case by simp
qed

text \<open>
  When the client is set and no call waits at line 111, no schedule of the calls, those
  not yet started among them, changes the client or calls \<^verbatim>\<open>init\<close>, and no call comes
  to wait there.
\<close>

lemma resume_ready:
  assumes "client (fst s) = Some c" and "\<not> importing t"
  shows "fst (snd (resume w t s)) = fst s
         \<and> inits (snd (snd (resume w t s))) = inits (snd s)
         \<and> \<not> importing (fst (resume w t s))"
proof -
  obtain obj log where s: "s = (obj, log)" by (cases s)
  with assms(1) have c: "client obj = Some c" by simp
  show ?thesis
  proof (cases "(w, t, (obj, log))" rule: resume.cases)
    case (1 w' c' i embs obj' log')
    with c show ?thesis unfolding s by (simp add: guard_ready)
  next
    case (2 w' c' i embs p obj' log')
    with assms(2) show ?thesis by simp
  next
    case (3 w' txts i embs obj' log')
    with c show ?thesis unfolding s by (simp add: importing_loop_head)
  next
    case (4 w' q i embs obj' log')
    with c show ?thesis unfolding s by (simp add: guard_ready)
  next
    case (5 w' c' i embs obj' log')
    then show ?thesis unfolding s by (simp add: inits_append)
  next
    case (6 w' txts i embs n obj' log')
    with c show ?thesis unfolding s
      by (cases "embed w n (request_of obj (EmbedDocuments txts))") (simp_all add: importing_loop_head)
  next
    case (7 w' q i embs n obj' log')
    then show ?thesis unfolding s
      by (cases "embed w n (request_of obj (EmbedQuery q))") simp_all
  next
    case (8 w' c' i embs r obj' log')
    then show ?thesis unfolding s by simp
  qed
qed

lemma resume_at_ready:
  assumes "client (fst (snd sys)) = Some c" and "\<forall>t \<in> set (fst sys). \<not> importing t"
  shows "fst (snd (resume_at w k sys)) = fst (snd sys)
         \<and> inits (snd (snd (resume_at w k sys))) = inits (snd (snd sys))
         \<and> (\<forall>t \<in> set (fst (resume_at w k sys)). \<not> importing t)"
proof (cases "k < length (fst sys)")
  case False
  with assms show ?thesis by (simp add: resume_at_def)
next
  case True
  with assms(2) have ni: "\<not> importing (fst sys ! k)" by simp
  obtain t s where r: "resume w (fst sys ! k) (snd sys) = (t, s)" by (cases "resume w (fst sys ! k) (snd sys)")
  from resume_ready[OF assms(1) ni, of w] r
  have "fst s = fst (snd sys)" "inits (snd s) = inits (snd (snd sys))" "\<not> importing t" by simp_all
  moreover have "\<forall>u \<in> set ((fst sys)[k := t]). \<not> importing u"
  proof
    fix u assume "u \<in> set ((fst sys)[k := t])"
    then have "u = t \<or> u \<in> set (fst sys)" using set_update_subset_insert by fastforce
    with \<open>\<not> importing t\<close> assms(2) show "\<not> importing u" by blast
  qed
  ultimately show ?thesis using True r by (simp add: resume_at_def)
qed

lemma run_schedule_ready:
  assumes "client (fst (snd sys)) = Some c" and "\<forall>t \<in> set (fst sys). \<not> importing t"
  shows "fst (snd (run_schedule w ks sys)) = fst (snd sys)
         \<and> inits (snd (snd (run_schedule w ks sys))) = inits (snd (snd sys))
         \<and> (\<forall>t \<in> set (fst (run_schedule w ks sys)). \<not> importing t)"
  using assms
proof (induction ks arbitrary: sys)
  case Nil
  then show ?case by simp
next
  case (Cons k ks)
  from resume_at_ready[OF Cons.prems, of w k]
  have f: "fst (snd (resume_at w k sys)) = fst (snd sys)"
    and i: "inits (snd (snd (resume_at w k sys))) = inits (snd (snd sys))"
    and n: "\<forall>t \<in> set (fst (resume_at w k sys)). \<not> importing t"
    by simp_all
  from f Cons.prems(1) have c: "client (fst (snd (resume_at w k sys))) = Some c" by simp
  from Cons.IH[OF c n] f i show ?case by simp
qed

text \<open>
  Two calls that both start on an instance without a client, before either import is
  over, each call \<^verbatim>\<open>init\<close>, whatever the two calls are.
\<close>

lemma overlapping_calls_general:
  assumes "client obj = None" and "installed w"
  shows "inits (snd (snd (run_schedule w [0, 1, 0, 1]
           ([Task c1 i1 e1 NotStarted, Task c2 i2 e2 NotStarted], (obj, log)))))
         = inits log @ [apiKey obj, apiKey obj]"
  using assms
  by (simp add: resume_at_def guard_fresh imports_cohere_def inits_append)

text \<open>The same two calls of the theorem for C9, the second started when the first is done.\<close>

lemma calls_in_turn_initialise_once:
  "run_schedule
     \<lparr> installed = True, embed = (\<lambda>n r. Inr (map (\<lambda>t. [int (length t)]) (texts r))) \<rparr>
     [0, 0, 0, 0, 0, 1, 1, 1, 1]
     ([Task (EmbedQuery ''a'') 0 [] NotStarted, Task (EmbedQuery ''bb'') 0 [] NotStarted],
      (\<lparr> modelName = ''small'', batchSize = 48, apiKey = ''k'', client = None \<rparr>, []))
   = ([Task (EmbedQuery ''a'') 0 [] (Finished (Inr (Embedding (Some [1])))),
       Task (EmbedQuery ''bb'') 0 [] (Finished (Inr (Embedding (Some [2]))))],
      (\<lparr> modelName = ''small'', batchSize = 48, apiKey = ''k'', client = Some (Cohere ''k'') \<rparr>,
       [InitClient ''k'',
        EmbedCall \<lparr> model = ''small'', texts = [''a''] \<rparr>,
        EmbedCall \<lparr> model = ''small'', texts = [''bb''] \<rparr>]))"
  by (simp add: resume_at_def guard_def imports_cohere_def js_index_def)

section \<open>The claims\<close>

text \<open>
  C1. The claim: for every input, the embedding at index \<open>i\<close> of the result of
  \<^verbatim>\<open>embedDocuments\<close> is the embedding of \<^verbatim>\<open>texts[i]\<close>, given a provider that returns
  embeddings aligned to the texts of each request. The code does not do this once there
  is more than one batch. With \<^verbatim>\<open>batchSize = 2\<close>, the texts \<^verbatim>\<open>["a", "b", "c"]\<close> and a
  provider that embeds "a" as [1, 0], "b" as [0, 1] and "c" as [1, 1], both requests
  carry all three texts, the second batch (of length 1) takes entry 0 of its answer,
  and the result is [1, 0], [0, 1], [1, 0]: index 2 holds the embedding of "a", not
  of "c".
\<close>

theorem embedDocuments_misaligned_across_batches:
  "embedDocuments
      \<lparr> installed = True,
         embed = (\<lambda>n r. Inr (map (\<lambda>t. if t = ''a'' then [1, 0] else if t = ''b'' then [0, 1] else [1, 1::int]) (texts r))) \<rparr>
      [''a'', ''b'', ''c'']
      (\<lparr> modelName = ''small'', batchSize = 2, apiKey = ''k'', client = None \<rparr>, [])
   = (Inr [Some [1, 0], Some [0, 1], Some [1, 0]],
      (\<lparr> modelName = ''small'', batchSize = 2, apiKey = ''k'', client = Some (Cohere ''k'') \<rparr>,
       [InitClient ''k'',
        EmbedCall \<lparr> model = ''small'', texts = [''a'', ''b'', ''c''] \<rparr>,
        EmbedCall \<lparr> model = ''small'', texts = [''a'', ''b'', ''c''] \<rparr>]))"
  by code_simp

text \<open>
  C2. Every request that \<^verbatim>\<open>embedDocuments\<close> hands to the caller is
  \<^verbatim>\<open>{ model: this.modelName, texts }\<close> with the whole input as \<^verbatim>\<open>texts\<close>, and there are at
  most as many as there are batches; when each of them is answered, the result is the
  concatenation, over the batches \<open>k\<close> in order, of the entries \<open>0 ..< length batch\<^sub>k\<close>
  of the \<open>k\<close>-th answer. The client must be loadable (the module is installed, or
  the instance has its client already).
\<close>

theorem embedDocuments_requests:
  assumes "installed w \<or> client (fst s) \<noteq> None"
  shows "(\<exists>m \<le> length (chunkArray txts (batchSize (fst s))).
            calls (snd (snd (embedDocuments w txts s)))
              = calls (snd s) @ replicate m \<lparr> model = modelName (fst s), texts = txts \<rparr>)
         \<and> ((\<forall>k < length (chunkArray txts (batchSize (fst s))).
                \<exists>body. embed w (length (calls (snd s)) + k) \<lparr> model = modelName (fst s), texts = txts \<rparr> = Inr body)
              \<longrightarrow> fst (embedDocuments w txts s) =
                    Inr (concat (map (\<lambda>k. map (js_index (projr (embed w (length (calls (snd s)) + k)
                                         \<lparr> model = modelName (fst s), texts = txts \<rparr>)))
                                       [0..<length (chunkArray txts (batchSize (fst s)) ! k)])
                                 [0..<length (chunkArray txts (batchSize (fst s)))])))"
proof -
  from maybeInitClient_ok[OF assms(1)] obtain s1 where s1: "maybeInitClient w s = (Inr (), s1)"
    and c: "client (fst s1) \<noteq> None" and m: "modelName (fst s1) = modelName (fst s)"
    and b: "batchSize (fst s1) = batchSize (fst s)" and n: "calls (snd s1) = calls (snd s)"
    by blast
  from c obtain c' where c': "client (fst s1) = Some c'" by auto
  from embedDocuments_events[OF s1 c', of txts] have first: "\<exists>m \<le> length (chunkArray txts (batchSize (fst s))).
            calls (snd (snd (embedDocuments w txts s)))
              = calls (snd s) @ replicate m \<lparr> model = modelName (fst s), texts = txts \<rparr>"
    by (auto simp: m b n calls_append calls_replicate)
  have second: "fst (embedDocuments w txts s) =
                    Inr (concat (map (\<lambda>k. map (js_index (projr (embed w (length (calls (snd s)) + k)
                                         \<lparr> model = modelName (fst s), texts = txts \<rparr>)))
                                       [0..<length (chunkArray txts (batchSize (fst s)) ! k)])
                                 [0..<length (chunkArray txts (batchSize (fst s)))]))"
    if "\<forall>k < length (chunkArray txts (batchSize (fst s))).
                \<exists>body. embed w (length (calls (snd s)) + k) \<lparr> model = modelName (fst s), texts = txts \<rparr> = Inr body"
  proof -
    from that have ok: "\<And>k. k < length (chunkArray txts (batchSize (fst s))) \<Longrightarrow>
           \<exists>body. embed w (length (calls (snd s)) + k) \<lparr> model = modelName (fst s), texts = txts \<rparr> = Inr body"
      by blast
    from embedDocuments_all_ok[OF assms(1) ok] show ?thesis by auto
  qed
  from first second show ?thesis by blast
qed

theorem embedDocuments_requests_witness:
  "(let w = \<lparr> installed = True, embed = (\<lambda>n r. Inr (map (\<lambda>t. [int (length t)]) (texts r))) \<rparr>;
        s = (\<lparr> modelName = ''small'', batchSize = 2, apiKey = ''k'', client = None \<rparr>, []);
        txts = [''a'', ''bb'', ''ccc'']
    in (installed w \<or> client (fst s) \<noteq> None)
       \<and> chunkArray txts (batchSize (fst s)) = [[''a'', ''bb''], [''ccc'']]
       \<and> (\<forall>k < length (chunkArray txts (batchSize (fst s))).
            \<exists>body. embed w (length (calls (snd s)) + k) \<lparr> model = modelName (fst s), texts = txts \<rparr> = Inr body)
       \<and> (\<exists>m \<le> 2. calls (snd (snd (embedDocuments w txts s))) = replicate m \<lparr> model = ''small'', texts = txts \<rparr>)
       \<and> fst (embedDocuments w txts s) = Inr [Some [1], Some [2], Some [1]])"
proof -
  let ?w = "\<lparr> installed = True, embed = (\<lambda>n r. Inr (map (\<lambda>t. [int (length t)]) (texts r))) \<rparr>"
  let ?s = "(\<lparr> modelName = ''small'', batchSize = 2, apiKey = ''k'', client = None \<rparr>, [] :: event list)"
  let ?txts = "[''a'', ''bb'', ''ccc'']"
  have a: "installed ?w \<or> client (fst ?s) \<noteq> None" by simp
  have ch: "chunkArray ?txts (batchSize (fst ?s)) = [[''a'', ''bb''], [''ccc'']]"
    by (simp add: chunkArray.simps)
  have ok: "\<forall>k < length (chunkArray ?txts (batchSize (fst ?s))).
      \<exists>body. embed ?w (length (calls (snd ?s)) + k) \<lparr> model = modelName (fst ?s), texts = ?txts \<rparr> = Inr body"
    by simp
  note inst = embedDocuments_requests [OF a, of ?txts]
  from inst have cs: "\<exists>m \<le> length (chunkArray ?txts (batchSize (fst ?s))).
      calls (snd (snd (embedDocuments ?w ?txts ?s)))
        = calls (snd ?s) @ replicate m \<lparr> model = modelName (fst ?s), texts = ?txts \<rparr>"
    by (rule conjunct1)
  from inst have "(\<forall>k < length (chunkArray ?txts (batchSize (fst ?s))).
      \<exists>body. embed ?w (length (calls (snd ?s)) + k) \<lparr> model = modelName (fst ?s), texts = ?txts \<rparr> = Inr body)
    \<longrightarrow> fst (embedDocuments ?w ?txts ?s) =
      Inr (concat (map (\<lambda>k. map (js_index (projr (embed ?w (length (calls (snd ?s)) + k)
                                         \<lparr> model = modelName (fst ?s), texts = ?txts \<rparr>)))
                                       [0..<length (chunkArray ?txts (batchSize (fst ?s)) ! k)])
                                 [0..<length (chunkArray ?txts (batchSize (fst ?s)))]))"
    by (rule conjunct2)
  from this ok have res: "fst (embedDocuments ?w ?txts ?s) =
      Inr (concat (map (\<lambda>k. map (js_index (projr (embed ?w (length (calls (snd ?s)) + k)
                                         \<lparr> model = modelName (fst ?s), texts = ?txts \<rparr>)))
                                       [0..<length (chunkArray ?txts (batchSize (fst ?s)) ! k)])
                                 [0..<length (chunkArray ?txts (batchSize (fst ?s)))]))"
    by (rule mp)
  have res': "fst (embedDocuments ?w ?txts ?s) = Inr [Some [1], Some [2], Some [1]]"
    unfolding res ch by (simp add: js_index_def upt_conv_Cons)
  have cs': "\<exists>m \<le> 2. calls (snd (snd (embedDocuments ?w ?txts ?s)))
        = replicate m \<lparr> model = ''small'', texts = ?txts \<rparr>"
    using cs unfolding ch by (simp add: numeral_2_eq_2)
  from a ch ok res' cs' show ?thesis unfolding Let_def by (intro conjI)
qed

text \<open>
  C3. When every request is answered with one embedding per text sent, the result of
  \<^verbatim>\<open>embedDocuments\<close> has the length of the input, and none of its entries is
  \<^verbatim>\<open>undefined\<close>. The client must be loadable and the batch size positive. (The input
  may be empty as well.)
\<close>

theorem embedDocuments_length:
  assumes "installed w \<or> client (fst s) \<noteq> None"
    and "0 < batchSize (fst s)"
    and "\<And>n r. \<exists>body. embed w n r = Inr body \<and> length body = length (texts r)"
  shows "\<exists>es. fst (embedDocuments w txts s) = Inr es \<and> length es = length txts \<and> None \<notin> set es"
proof -
  let ?bs = "chunkArray txts (batchSize (fst s))"
  let ?req = "\<lparr> model = modelName (fst s), texts = txts \<rparr>"
  let ?body = "\<lambda>k. projr (embed w (length (calls (snd s)) + k) ?req)"
  let ?es = "concat (map (\<lambda>k. map (js_index (?body k)) [0..<length (?bs ! k)]) [0..<length ?bs])"
  have ok: "\<And>k. k < length ?bs \<Longrightarrow> \<exists>body. embed w (length (calls (snd s)) + k) ?req = Inr body"
    using assms(3) by blast
  from embedDocuments_all_ok[OF assms(1) ok] have res: "fst (embedDocuments w txts s) = Inr ?es"
    by auto
  have len: "length ?es = length txts"
    using assms(2) by (simp only: length_concat_batches sum_length_chunkArray)
  have blen: "\<And>k. length (?body k) = length txts"
  proof -
    fix k
    from assms(3)[of "length (calls (snd s)) + k" ?req] show "length (?body k) = length txts"
      by auto
  qed
  have small: "\<And>k. k < length ?bs \<Longrightarrow> length (?bs ! k) \<le> length txts"
  proof -
    fix k assume "k < length ?bs"
    then have "length (?bs ! k) \<in> set (map length ?bs)" by simp
    then have "length (?bs ! k) \<le> sum_list (map length ?bs)" by (simp add: member_le_sum_list)
    then show "length (?bs ! k) \<le> length txts" using assms(2) by (simp add: sum_length_chunkArray)
  qed
  have "None \<notin> set ?es"
  proof
    assume "None \<in> set ?es"
    then obtain k j where "k < length ?bs" "j < length (?bs ! k)" "js_index (?body k) j = None"
      by auto
    with small[of k] blen[of k] show False by (simp add: js_index_def)
  qed
  with res len show ?thesis by blast
qed

theorem embedDocuments_length_witness:
  "(let w = \<lparr> installed = True, embed = (\<lambda>n r. Inr (map (\<lambda>t. [int (length t)]) (texts r))) \<rparr>;
        s = (\<lparr> modelName = ''small'', batchSize = 2, apiKey = ''k'', client = None \<rparr>, [])
    in (installed w \<or> client (fst s) \<noteq> None) \<and> 0 < batchSize (fst s)
       \<and> (\<forall>n r. \<exists>body. embed w n r = Inr body \<and> length body = length (texts r))
       \<and> (\<exists>es. fst (embedDocuments w [''a'', ''bb'', ''ccc''] s) = Inr es
                \<and> length es = length [''a'', ''bb'', ''ccc''] \<and> None \<notin> set es))"
proof -
  let ?w = "\<lparr> installed = True, embed = (\<lambda>n r. Inr (map (\<lambda>t. [int (length t)]) (texts r))) \<rparr>"
  let ?s = "(\<lparr> modelName = ''small'', batchSize = 2, apiKey = ''k'', client = None \<rparr>, [])"
  have a: "installed ?w \<or> client (fst ?s) \<noteq> None" by simp
  have b: "0 < batchSize (fst ?s)" by simp
  have c: "\<And>n r. \<exists>body. embed ?w n r = Inr body \<and> length body = length (texts r)" by simp
  from embedDocuments_length [of ?w ?s "[''a'', ''bb'', ''ccc'']", OF a b c] a b c
  show ?thesis unfolding Let_def by blast
qed

text \<open>
  C4. \<^verbatim>\<open>embedDocuments([])\<close> hands no request to the caller, whatever the surroundings,
  and returns the empty list when the client is loadable (else \<^verbatim>\<open>maybeInitClient\<close>
  throws before the batches are looked at).
\<close>

theorem embedDocuments_empty:
  "calls (snd (snd (embedDocuments w [] s))) = calls (snd s)
   \<and> (installed w \<or> client (fst s) \<noteq> None \<longrightarrow> fst (embedDocuments w [] s) = Inr [])"
proof (cases "installed w \<or> client (fst s) \<noteq> None")
  case True
  from maybeInitClient_ok[OF True] obtain s1 where
    "maybeInitClient w s = (Inr (), s1)" "calls (snd s1) = calls (snd s)" by blast
  then show ?thesis
    by (simp add: embedDocuments_def chunkArray_Nil batch_loop_done)
next
  case False
  then obtain e where "maybeInitClient w s = (Inl e, s)"
    using maybeInitClient_missing[of s w] by auto
  with False show ?thesis by (simp add: embedDocuments_def)
qed

theorem embedDocuments_empty_witness:
  "(let w = \<lparr> installed = True, embed = (\<lambda>n r. Inl (Error ''unreachable'') :: error + int list list) \<rparr>;
        s = (\<lparr> modelName = ''small'', batchSize = 48, apiKey = ''k'', client = None \<rparr>, [])
    in (installed w \<or> client (fst s) \<noteq> None)
       \<and> fst (embedDocuments w [] s) = Inr []
       \<and> calls (snd (snd (embedDocuments w [] s))) = [])"
  using embedDocuments_empty [of "\<lparr> installed = True, embed = (\<lambda>n r. Inl (Error ''unreachable'') :: error + int list list) \<rparr>"
      "(\<lparr> modelName = ''small'', batchSize = 48, apiKey = ''k'', client = None \<rparr>, [])"]
  by (simp add: Let_def)

text \<open>
  C5. From the same state and surroundings, \<^verbatim>\<open>embedDocuments([t])\<close> returns the
  one-element list holding what \<^verbatim>\<open>embedQuery(t)\<close> returns, or throws the same error, and
  leaves the same state; \<^verbatim>\<open>embedQuery(t)\<close> hands exactly one request to the caller, with
  \<^verbatim>\<open>texts = [t]\<close>. The client must be loadable and the batch size positive.
\<close>

theorem embedQuery_embedDocuments:
  assumes "installed w \<or> client (fst s) \<noteq> None" and "0 < batchSize (fst s)"
  shows "embedDocuments w [t] s = (map_sum id (\<lambda>v. [v]) (fst (embedQuery w t s)), snd (embedQuery w t s))
         \<and> calls (snd (snd (embedQuery w t s))) = calls (snd s) @ [\<lparr> model = modelName (fst s), texts = [t] \<rparr>]"
proof -
  from maybeInitClient_ok[OF assms(1)] obtain s1 where s1: "maybeInitClient w s = (Inr (), s1)"
    and c: "client (fst s1) \<noteq> None" and m: "modelName (fst s1) = modelName (fst s)"
    and b: "batchSize (fst s1) = batchSize (fst s)" and n: "calls (snd s1) = calls (snd s)"
    by blast
  from c obtain c' where c': "client (fst s1) = Some c'" by auto
  from assms(2) b have b': "0 < batchSize (fst s1)" by simp
  show ?thesis
    unfolding embedQuery_ready[OF s1 c'] embedDocuments_single[OF s1 c' b']
    by (cases "embed w (length (calls (snd s))) \<lparr> model = modelName (fst s), texts = [t] \<rparr>")
       (simp_all add: calls_append m n)
qed

theorem embedQuery_embedDocuments_witness:
  "(let w = \<lparr> installed = True, embed = (\<lambda>n r. Inr (map (\<lambda>t. [int (length t)]) (texts r))) \<rparr>;
        s = (\<lparr> modelName = ''small'', batchSize = 48, apiKey = ''k'', client = None \<rparr>, [])
    in (installed w \<or> client (fst s) \<noteq> None) \<and> 0 < batchSize (fst s)
       \<and> fst (embedQuery w ''hello'' s) = Inr (Some [5])
       \<and> fst (embedDocuments w [''hello''] s) = Inr [Some [5]]
       \<and> calls (snd (snd (embedQuery w ''hello'' s))) = [\<lparr> model = ''small'', texts = [''hello''] \<rparr>])"
proof -
  let ?w = "\<lparr> installed = True, embed = (\<lambda>n r. Inr (map (\<lambda>t. [int (length t)]) (texts r))) \<rparr>"
  let ?s = "(\<lparr> modelName = ''small'', batchSize = 48, apiKey = ''k'', client = None \<rparr>, [])"
  have a: "installed ?w \<or> client (fst ?s) \<noteq> None" by simp
  have b: "0 < batchSize (fst ?s)" by simp
  have q: "fst (embedQuery ?w ''hello'' ?s) = Inr (Some [5])"
    by (simp add: embedQuery_def maybeInitClient_def imports_cohere_def embeddingWithRetry_def js_index_def)
  from embedQuery_embedDocuments [OF a b, of "''hello''"] q a b
  show ?thesis unfolding Let_def by simp
qed



text \<open>
  C7. Without a key in \<^verbatim>\<open>fields\<close> (no \<^verbatim>\<open>fields\<close>, or no \<^verbatim>\<open>apiKey\<close> in it) and without
  one in the environment (no \<^verbatim>\<open>process\<close>, or \<^verbatim>\<open>COHERE_API_KEY\<close> unset), the constructor
  throws \<^verbatim>\<open>Error("Cohere API key not found")\<close> and yields no instance.
\<close>

theorem constructor_no_key:
  assumes "optional_chain flds f_apiKey = None" and "env_COHERE_API_KEY process = None"
  shows "constructor process flds = Inl (Error ''Cohere API key not found'')"
  using assms by (simp add: constructor_def js_or_def)

theorem constructor_no_key_witness:
  "optional_chain (Some \<lparr> f_modelName = Some ''large'', f_batchSize = Some 2, f_apiKey = None \<rparr>) f_apiKey = None
   \<and> env_COHERE_API_KEY (Some [''HOME'' \<mapsto> ''/root'']) = None
   \<and> constructor (Some [''HOME'' \<mapsto> ''/root''])
         (Some \<lparr> f_modelName = Some ''large'', f_batchSize = Some 2, f_apiKey = None \<rparr>)
       = Inl (Error ''Cohere API key not found'')"
proof -
  have a: "optional_chain (Some \<lparr> f_modelName = Some ''large'', f_batchSize = Some 2, f_apiKey = None \<rparr>) f_apiKey = None"
    by (simp add: optional_chain_def)
  have b: "env_COHERE_API_KEY (Some [''HOME'' \<mapsto> ''/root'']) = None"
    by (simp add: env_COHERE_API_KEY_def)
  show ?thesis using a b constructor_no_key [OF a b] by simp
qed

text \<open>
  C8. When the request for batch \<open>k\<close> fails and the requests before it were answered,
  \<^verbatim>\<open>embedDocuments\<close> throws that very error: the result is the error and no list, and
  no request follows the failed one.
\<close>

theorem embedDocuments_failure_propagates:
  assumes "installed w \<or> client (fst s) \<noteq> None"
    and "k < length (chunkArray txts (batchSize (fst s)))"
    and "embed w (length (calls (snd s)) + k) \<lparr> model = modelName (fst s), texts = txts \<rparr> = Inl e"
    and "\<forall>j < k.
           \<exists>body. embed w (length (calls (snd s)) + j) \<lparr> model = modelName (fst s), texts = txts \<rparr> = Inr body"
  shows "fst (embedDocuments w txts s) = Inl e
         \<and> calls (snd (snd (embedDocuments w txts s)))
             = calls (snd s) @ replicate (Suc k) \<lparr> model = modelName (fst s), texts = txts \<rparr>"
proof -
  from maybeInitClient_ok[OF assms(1)] obtain s1 where s1: "maybeInitClient w s = (Inr (), s1)"
    and c: "client (fst s1) \<noteq> None" and m: "modelName (fst s1) = modelName (fst s)"
    and b: "batchSize (fst s1) = batchSize (fst s)" and n: "calls (snd s1) = calls (snd s)"
    by blast
  from c obtain c' where c': "client (fst s1) = Some c'" by auto
  have k: "k < length (chunkArray txts (batchSize (fst s))) - 0" using assms(2) by simp
  have e: "embed w (length (calls (snd s1)) + k) \<lparr> model = modelName (fst s1), texts = txts \<rparr> = Inl e"
    using assms(3) by (simp add: m n)
  have ok: "\<And>j. j < k \<Longrightarrow>
      \<exists>body. embed w (length (calls (snd s1)) + j) \<lparr> model = modelName (fst s1), texts = txts \<rparr> = Inr body"
    using assms(4) by (simp add: m n)
  from batch_loop_first_fail[where embs="[]" and i=0 and subPrompts="chunkArray txts (batchSize (fst s))", OF c' k e ok] s1
  show ?thesis
    by (simp add: embedDocuments_def m b n calls_append calls_replicate)
qed

theorem embedDocuments_failure_propagates_witness:
  "(let w = \<lparr> installed = True,
               embed = (\<lambda>n r. if n = 1 then Inl (Error ''too many requests'')
                               else Inr (map (\<lambda>t. [int (length t)]) (texts r))) \<rparr>;
        s = (\<lparr> modelName = ''small'', batchSize = 2, apiKey = ''k'', client = None \<rparr>, []);
        txts = [''a'', ''bb'', ''ccc'', ''dddd'', ''eeeee'']
    in (installed w \<or> client (fst s) \<noteq> None)
       \<and> 1 < length (chunkArray txts (batchSize (fst s)))
       \<and> embed w (length (calls (snd s)) + 1) \<lparr> model = modelName (fst s), texts = txts \<rparr>
           = Inl (Error ''too many requests'')
       \<and> (\<forall>j < 1. \<exists>body. embed w (length (calls (snd s)) + j) \<lparr> model = modelName (fst s), texts = txts \<rparr> = Inr body)
       \<and> fst (embedDocuments w txts s) = Inl (Error ''too many requests'')
       \<and> length (calls (snd (snd (embedDocuments w txts s)))) = 2)"
proof -
  let ?w = "\<lparr> installed = True,
               embed = (\<lambda>n r. if n = 1 then Inl (Error ''too many requests'')
                               else Inr (map (\<lambda>t. [int (length t)]) (texts r))) \<rparr>"
  let ?s = "(\<lparr> modelName = ''small'', batchSize = 2, apiKey = ''k'', client = None \<rparr>, [] :: event list)"
  let ?txts = "[''a'', ''bb'', ''ccc'', ''dddd'', ''eeeee'']"
  have a: "installed ?w \<or> client (fst ?s) \<noteq> None" by simp
  have k: "1 < length (chunkArray ?txts (batchSize (fst ?s)))" by (simp add: chunkArray.simps)
  have e: "embed ?w (length (calls (snd ?s)) + 1) \<lparr> model = modelName (fst ?s), texts = ?txts \<rparr>
           = Inl (Error ''too many requests'')" by simp
  have ok: "\<forall>j < 1.
      \<exists>body. embed ?w (length (calls (snd ?s)) + j) \<lparr> model = modelName (fst ?s), texts = ?txts \<rparr> = Inr body"
    by simp
  from embedDocuments_failure_propagates [OF a k e ok]
  have r: "fst (embedDocuments ?w ?txts ?s) = Inl (Error ''too many requests'')"
    and c: "length (calls (snd (snd (embedDocuments ?w ?txts ?s)))) = 2"
    by simp_all
  from a k e ok r c show ?thesis unfolding Let_def by (intro conjI)
qed

text \<open>
  C9. The claim: the client goes once from uninitialised to initialised, at the first
  call of \<^verbatim>\<open>embedDocuments\<close> or \<^verbatim>\<open>embedQuery\<close>, and the guard keeps every later call on
  the instance from initialising it again. The guard does not do that for a call that
  starts while the import of an earlier one is pending: \<^verbatim>\<open>maybeInitClient\<close> tests
  \<^verbatim>\<open>!this.client\<close> (line 110) before \<^verbatim>\<open>await CohereEmbeddings.imports()\<close> (line 111) and
  assigns the client after it (line 113), without testing again. On an instance with
  the key "k" and no client, \<^verbatim>\<open>embedQuery("a")\<close> and then \<^verbatim>\<open>embedQuery("bb")\<close> started
  before the first is resumed (as \<^verbatim>\<open>Promise.all\<close> does) both find no client, both
  import, and both call \<^verbatim>\<open>init("k")\<close>: the events hold two initialisations. Both calls
  end with their embedding.
\<close>

theorem overlapping_calls_initialise_twice:
  "run_schedule
     \<lparr> installed = True, embed = (\<lambda>n r. Inr (map (\<lambda>t. [int (length t)]) (texts r))) \<rparr>
     [0, 1, 0, 1, 0, 1, 0, 1, 0, 1]
     ([Task (EmbedQuery ''a'') 0 [] NotStarted, Task (EmbedQuery ''bb'') 0 [] NotStarted],
      (\<lparr> modelName = ''small'', batchSize = 48, apiKey = ''k'', client = None \<rparr>, []))
   = ([Task (EmbedQuery ''a'') 0 [] (Finished (Inr (Embedding (Some [1])))),
       Task (EmbedQuery ''bb'') 0 [] (Finished (Inr (Embedding (Some [2]))))],
      (\<lparr> modelName = ''small'', batchSize = 48, apiKey = ''k'', client = Some (Cohere ''k'') \<rparr>,
       [InitClient ''k'', InitClient ''k'',
        EmbedCall \<lparr> model = ''small'', texts = [''a''] \<rparr>,
        EmbedCall \<lparr> model = ''small'', texts = [''bb''] \<rparr>]))"
  by (simp add: resume_at_def guard_def imports_cohere_def js_index_def)

text \<open>
  C10. An explicit empty \<^verbatim>\<open>apiKey\<close> is falsy, so the constructor does with it what it
  does without one, whatever the environment and the other fields: when
  \<^verbatim>\<open>COHERE_API_KEY\<close> holds a non-empty key the instance is made with that key (and with
  the given or default model name and batch size), and when the variable is unset or
  empty the constructor throws \<^verbatim>\<open>Error("Cohere API key not found")\<close>.
\<close>

theorem constructor_empty_key:
  "constructor process (Some \<lparr> f_modelName = m, f_batchSize = b, f_apiKey = Some [] \<rparr>)
     = constructor process (Some \<lparr> f_modelName = m, f_batchSize = b, f_apiKey = None \<rparr>)
   \<and> (env_COHERE_API_KEY process = None \<or> env_COHERE_API_KEY process = Some [] \<longrightarrow>
        constructor process (Some \<lparr> f_modelName = m, f_batchSize = b, f_apiKey = Some [] \<rparr>)
          = Inl (Error ''Cohere API key not found''))
   \<and> (env_COHERE_API_KEY process = Some k \<and> k \<noteq> [] \<longrightarrow>
        constructor process (Some \<lparr> f_modelName = m, f_batchSize = b, f_apiKey = Some [] \<rparr>)
          = Inr \<lparr> modelName = nullish m ''small'', batchSize = nullish b 48,
                  apiKey = k, client = None \<rparr>)"
  by (auto simp add: constructor_def js_or_def optional_chain_def Let_def)

theorem constructor_empty_key_witness:
  "env_COHERE_API_KEY None = None
   \<and> constructor None (Some \<lparr> f_modelName = None, f_batchSize = Some 2, f_apiKey = Some [] \<rparr>)
       = constructor None (Some \<lparr> f_modelName = None, f_batchSize = Some 2, f_apiKey = None \<rparr>)
   \<and> constructor None (Some \<lparr> f_modelName = None, f_batchSize = Some 2, f_apiKey = Some [] \<rparr>)
       = Inl (Error ''Cohere API key not found'')
   \<and> env_COHERE_API_KEY (Some [''COHERE_API_KEY'' \<mapsto> ''secret'']) = Some ''secret''
   \<and> ''secret'' \<noteq> []
   \<and> constructor (Some [''COHERE_API_KEY'' \<mapsto> ''secret''])
         (Some \<lparr> f_modelName = None, f_batchSize = Some 2, f_apiKey = Some [] \<rparr>)
       = Inr \<lparr> modelName = ''small'', batchSize = 2, apiKey = ''secret'', client = None \<rparr>"
proof -
  let ?p = "Some [''COHERE_API_KEY'' \<mapsto> ''secret''] :: (string \<rightharpoonup> string) option"
  have a: "env_COHERE_API_KEY None = None"
    by (simp add: env_COHERE_API_KEY_def)
  have b: "env_COHERE_API_KEY ?p = Some ''secret''"
    by (simp add: env_COHERE_API_KEY_def)
  have c: "''secret'' \<noteq> []" by simp
  note unset = constructor_empty_key [of None None "Some 2" "''secret''"]
  note set = constructor_empty_key [of ?p None "Some 2" "''secret''"]
  from unset a have one: "constructor None (Some \<lparr> f_modelName = None, f_batchSize = Some 2, f_apiKey = Some [] \<rparr>)
       = constructor None (Some \<lparr> f_modelName = None, f_batchSize = Some 2, f_apiKey = None \<rparr>)"
    and two: "constructor None (Some \<lparr> f_modelName = None, f_batchSize = Some 2, f_apiKey = Some [] \<rparr>)
       = Inl (Error ''Cohere API key not found'')"
    by blast+
  from set b c have three: "constructor ?p (Some \<lparr> f_modelName = None, f_batchSize = Some 2, f_apiKey = Some [] \<rparr>)
       = Inr \<lparr> modelName = nullish None ''small'', batchSize = nullish (Some 2) 48,
                  apiKey = ''secret'', client = None \<rparr>"
    by blast
  from a one two b c three show ?thesis by simp
qed

end
